theory Spec2Isabelle
  imports Complex_Main
begin

section \<open>The MISP DXL service: constants of \<open>MispService\<close>\<close>

text \<open>
  Class constants of \<open>dxlmispservice.app.MispService\<close>. Python strings are modelled
  as \<open>string\<close>; every constant below is ASCII.
\<close>

definition SERVICE_BASE_NAME :: string where
  "SERVICE_BASE_NAME = ''/opendxl-misp/service''"

definition SERVICE_TYPE :: string where
  "SERVICE_TYPE = SERVICE_BASE_NAME @ ''/misp-api''"

definition ZEROMQ_NOTIFICATIONS_EVENT_TOPIC :: string where
  "ZEROMQ_NOTIFICATIONS_EVENT_TOPIC = SERVICE_BASE_NAME @ ''/zeromq-notifications''"

text \<open>
  \<open>self._service_unique_id\<close> is either \<open>None\<close> (the constructor's value and the
  resolver's default) or the trimmed string read from the configuration. The
  conditional expression \<open>"/{}".format(id) if id else ""\<close> tests Python
  truthiness: \<open>None\<close> and the empty string are both false.
\<close>

definition unique_id_segment :: "string option \<Rightarrow> string" where
  "unique_id_segment uid =
     (case uid of
        None \<Rightarrow> ''''
      | Some s \<Rightarrow> (if s \<noteq> [] then ''/'' @ s else ''''))"

section \<open>API method registry and service registration\<close>

text \<open>
  An attribute of the PyMISP client object is either a method (a callable object,
  carrying its \<open>__name__\<close>) or a plain datum. Method, function and class objects
  are always true in a boolean context, so \<open>if api_method:\<close> in the registration
  loop is the test "is not \<open>None\<close>". The client is the finite map from attribute
  names to attributes that \<open>hasattr\<close>/\<open>getattr\<close> read.
\<close>

datatype py_attr = Method string | Data

type_synonym api_client = "string \<rightharpoonup> py_attr"

fun callable :: "py_attr \<Rightarrow> bool" where
  "callable (Method n) = True"
| "callable Data = False"

fun dunder_name :: "py_attr \<Rightarrow> string" where
  "dunder_name (Method n) = n"
| "dunder_name Data = []"

text \<open>\<open>MispService._get_api_method\<close>: the matching method if available, else \<open>None\<close>.\<close>

definition get_api_method :: "api_client \<Rightarrow> string \<Rightarrow> py_attr option" where
  "get_api_method client api_name =
     (case client api_name of
        None \<Rightarrow> None
      | Some api_attr \<Rightarrow> (if callable api_attr then Some api_attr else None))"

text \<open>
  What \<open>on_register_services\<close> does to the outside world: log records, request
  callbacks added to a service, and services registered with the fabric.
\<close>

datatype log_entry =
    Warning_invalid_api_name string
  | Info_registering_service
  | Info_registering_callback string string

record request_callback =
  cb_service :: string
  cb_topic :: string
  cb_method :: py_attr

record registration =
  log :: "log_entry list"
  callbacks :: "request_callback list"
  services :: "string list"

definition no_registration :: registration where
  "no_registration = \<lparr>log = [], callbacks = [], services = []\<rparr>"

text \<open>
  The first loop of \<open>on_register_services\<close>: the accumulator \<open>api_methods\<close> and
  the log are threaded through the iteration over \<open>self._api_names\<close>.
\<close>

fun resolve_api_names ::
  "api_client \<Rightarrow> string list \<Rightarrow> py_attr list \<times> log_entry list \<Rightarrow> py_attr list \<times> log_entry list"
where
  "resolve_api_names client [] acc = acc"
| "resolve_api_names client (api_name # rest) (api_methods, lg) =
     (case get_api_method client api_name of
        Some api_method \<Rightarrow> resolve_api_names client rest (api_methods @ [api_method], lg)
      | None \<Rightarrow>
          resolve_api_names client rest (api_methods, lg @ [Warning_invalid_api_name api_name]))"

definition service_topic :: "string option \<Rightarrow> string \<Rightarrow> string" where
  "service_topic uid api_method_name =
     SERVICE_TYPE @ unique_id_segment uid @ ''/'' @ api_method_name"

definition callback_log_name :: "string option \<Rightarrow> string \<Rightarrow> string" where
  "callback_log_name uid api_method_name =
     ''misp'' @ (case uid of None \<Rightarrow> '''' | Some s \<Rightarrow> (if s \<noteq> [] then ''_'' @ s else ''''))
       @ ''_'' @ api_method_name @ ''_requesthandler''"

text \<open>The second loop: one request callback per resolved method, in order.\<close>

fun add_callbacks :: "string option \<Rightarrow> py_attr list \<Rightarrow> registration \<Rightarrow> registration" where
  "add_callbacks uid [] r = r"
| "add_callbacks uid (api_method # rest) r =
     (let api_method_name = dunder_name api_method;
          topic = service_topic uid api_method_name
      in add_callbacks uid rest
           (r\<lparr>log := log r @ [Info_registering_callback
                                 (callback_log_name uid api_method_name) topic],
              callbacks := callbacks r @
                [\<lparr>cb_service = SERVICE_TYPE, cb_topic = topic, cb_method = api_method\<rparr>]\<rparr>))"

text \<open>
  \<open>MispService.on_register_services\<close>. A non-empty list is true in
  \<open>if api_methods:\<close>; the service is registered after its callbacks were added.
\<close>

definition on_register_services ::
  "api_client \<Rightarrow> string option \<Rightarrow> string list \<Rightarrow> registration"
where
  "on_register_services client uid api_names =
     (case resolve_api_names client api_names ([], []) of
        (api_methods, lg) \<Rightarrow>
          (if api_methods \<noteq> [] then
             (let r = add_callbacks uid api_methods
                        (no_registration\<lparr>log := lg @ [Info_registering_service]\<rparr>)
              in r\<lparr>services := services r @ [SERVICE_TYPE]\<rparr>)
           else no_registration\<lparr>log := lg\<rparr>))"

text \<open>The names a configured list resolves to, and those it does not.\<close>

definition resolves :: "api_client \<Rightarrow> string \<Rightarrow> bool" where
  "resolves client api_name =
     (case client api_name of None \<Rightarrow> False | Some a \<Rightarrow> callable a)"

definition resolved_methods :: "api_client \<Rightarrow> string list \<Rightarrow> py_attr list" where
  "resolved_methods client api_names = fst (resolve_api_names client api_names ([], []))"

definition reported_names :: "log_entry list \<Rightarrow> string list" where
  "reported_names lg =
     concat (map (\<lambda>e. case e of Warning_invalid_api_name n \<Rightarrow> [n] | _ \<Rightarrow> []) lg)"

section \<open>Request dispatcher\<close>

text \<open>
  Python values: what \<open>json.loads\<close> produces and what an operation of the remote
  API returns. A \<open>dict\<close> with string keys is a map. A (finite) float is the
  rational number it denotes; the service never computes with one.
  Characters of a Python string are modelled as code points below 256, one
  \<^typ>\<open>char\<close> each.
\<close>

datatype py_value =
    PNone
  | PBool bool
  | PInt int
  | PFloat rat
  | PStr string
  | PList "py_value list"
  | PDict "string \<Rightarrow> py_value option"

type_synonym kwargs = "string \<rightharpoonup> py_value"

datatype py_exception = TypeError | ValueError | Raised string

text \<open>
  \<open>str.isdigit()\<close>: true if the string is not empty and every character is a digit.
  Below code point 256 the digits of \<open>isdigit\<close> are the ten decimal digits and the
  superscripts two, three and one (U+00B2, U+00B3, U+00B9), which have the Unicode
  property \<open>Numeric_Type=Digit\<close>.
\<close>

definition decimal_char :: "char \<Rightarrow> bool" where
  "decimal_char c = (c \<in> set ''0123456789'')"

definition isdigit_char :: "char \<Rightarrow> bool" where
  "isdigit_char c = (decimal_char c \<or> c \<in> set [CHR 0xB2, CHR 0xB3, CHR 0xB9])"

definition isdigit :: "string \<Rightarrow> bool" where
  "isdigit s = (s \<noteq> [] \<and> list_all isdigit_char s)"

text \<open>
  \<open>int(s)\<close> on a string for which \<open>isdigit\<close> holds. Such a string has no sign, blank
  or underscore, so \<open>int\<close> reads it in base ten if every character is a decimal digit
  (category \<open>Nd\<close>; below code point 256 these are \<open>0\<close> to \<open>9\<close>) and raises
  \<open>ValueError\<close> otherwise.
\<close>

definition digit_value :: "char \<Rightarrow> int" where
  "digit_value c = int (of_char c) - 48"

definition py_int :: "string \<Rightarrow> py_exception + int" where
  "py_int s =
     (if s \<noteq> [] \<and> list_all decimal_char s
      then Inr (foldl (\<lambda>acc c. 10 * acc + digit_value c) 0 s)
      else Inl ValueError)"

text \<open>
  A request as the handler reads it: \<open>request.payload\<close> is a byte string, or
  \<open>None\<close> when absent; both the empty byte string and \<open>None\<close> are false. A
  response is built from the request and later receives its payload.
\<close>

record request =
  destination_topic :: string
  payload :: "string option"

record response =
  in_reply_to :: request
  response_payload :: string

text \<open>
  What the handler does to the outside world: calls of the bound operation (with the
  keyword arguments of each call) and responses sent through the DXL client.
\<close>

record dispatch_trace =
  invocations :: "kwargs list"
  responses :: "response list"

text \<open>
  Lines 37 and 38 of \<open>on_request\<close>: the payload is decoded only if it is true in a
  boolean context; otherwise the request dictionary is \<open>{}\<close>.
\<close>

definition decode_payload ::
  "(string \<Rightarrow> py_exception + py_value) \<Rightarrow> request \<Rightarrow> py_exception + py_value"
where
  "decode_payload json_loads req =
     (case payload req of
        None \<Rightarrow> Inr (PDict Map.empty)
      | Some bytes \<Rightarrow> (if bytes \<noteq> [] then json_loads bytes else Inr (PDict Map.empty)))"

text \<open>
  The narrow repair of the field \<open>event\<close>: lines 39 to 42 of \<open>on_request\<close>. The
  type test accepts \<open>str\<close> (and Python 2's \<open>unicode\<close>) only.
\<close>

definition coerce_event :: "kwargs \<Rightarrow> py_exception + kwargs" where
  "coerce_event request_dict =
     (case request_dict ''event'' of
        Some (PStr s) \<Rightarrow>
          (if isdigit s then
             (case py_int s of
                Inl e \<Rightarrow> Inl e
              | Inr n \<Rightarrow> Inr (request_dict(''event'' \<mapsto> PInt n)))
           else Inr request_dict)
      | _ \<Rightarrow> Inr request_dict)"

text \<open>
  \<open>MispServiceRequestCallback.on_request\<close>. The two functions of the bootstrap
  library's \<open>MessageUtils\<close> are parameters: \<open>json_loads\<close> decodes the payload bytes
  (and raises on malformed JSON), \<open>json_dumps\<close> encodes the operation's result, a
  JSON value. \<open>request_kwargs\<close> is the part of the body before the call, lines 37
  to 42: a decoded payload that is not a \<open>dict\<close> raises \<open>TypeError\<close> before the
  operation is called, either in the membership test, in the subscript
  \<open>request_dict["event"]\<close>, or in the expansion \<open>**request_dict\<close>. An exception of
  the operation is not caught, so nothing after the call runs.
\<close>

definition request_kwargs ::
  "(string \<Rightarrow> py_exception + py_value) \<Rightarrow> request \<Rightarrow> py_exception + kwargs"
where
  "request_kwargs json_loads req =
     (case decode_payload json_loads req of
        Inl e \<Rightarrow> Inl e
      | Inr (PDict request_dict) \<Rightarrow> coerce_event request_dict
      | Inr _ \<Rightarrow> Inl TypeError)"

definition on_request ::
  "(string \<Rightarrow> py_exception + py_value) \<Rightarrow> (py_value \<Rightarrow> string) \<Rightarrow>
   (kwargs \<Rightarrow> py_exception + py_value) \<Rightarrow> request \<Rightarrow> dispatch_trace \<Rightarrow>
   (py_exception + unit) \<times> dispatch_trace"
where
  "on_request json_loads json_dumps api_method req w =
     (case request_kwargs json_loads req of
        Inl e \<Rightarrow> (Inl e, w)
      | Inr kw \<Rightarrow>
          (let w1 = w\<lparr>invocations := invocations w @ [kw]\<rparr>
           in case api_method kw of
                Inl e \<Rightarrow> (Inl e, w1)
              | Inr response_data \<Rightarrow>
                  (Inr (),
                   w1\<lparr>responses := responses w1 @
                      [\<lparr>in_reply_to = req,
                        response_payload = json_dumps response_data\<rparr>]\<rparr>)))"

text \<open>The decimal reading of a digit string, written positionally.\<close>

definition decimal_value :: "string \<Rightarrow> int" where
  "decimal_value s = (\<Sum>i<length s. digit_value (s ! i) * 10 ^ (length s - 1 - i))"

text \<open>
  A request whose payload is the JSON text \<open>{"event": "\<twosuperior>"}\<close> in UTF-8 (the
  quotation mark is byte \<open>0x22\<close>, the superscript two the bytes \<open>0xC2 0xB2\<close>),
  and what \<open>json.loads\<close> makes of these bytes: a dictionary whose field \<open>event\<close>
  is the one-character string U+00B2.
\<close>

definition superscript_two_payload :: string where
  "superscript_two_payload =
     ''{'' @ [CHR 0x22] @ ''event'' @ [CHR 0x22] @ '': '' @
     [CHR 0x22, CHR 0xC2, CHR 0xB2, CHR 0x22] @ ''}''"

definition superscript_two_request :: request where
  "superscript_two_request =
     \<lparr>destination_topic = ''/opendxl-misp/service/misp-api/get_event'',
      payload = Some superscript_two_payload\<rparr>"

definition superscript_two_loads :: "string \<Rightarrow> py_exception + py_value" where
  "superscript_two_loads bytes =
     (if bytes = superscript_two_payload
      then Inr (PDict [''event'' \<mapsto> PStr [CHR 0xB2]])
      else Inl ValueError)"

section \<open>Notification relay\<close>

text \<open>
  \<open>str.partition(" ")\<close>: the part before the first space, the separator, and the
  part after it; if there is no space, the string itself and two empty strings.
\<close>

definition partition_space :: "string \<Rightarrow> string \<times> string \<times> string" where
  "partition_space s =
     (case dropWhile (\<lambda>c. c \<noteq> CHR '' '') s of
        [] \<Rightarrow> (s, [], [])
      | sep # after \<Rightarrow> (takeWhile (\<lambda>c. c \<noteq> CHR '' '') s, [sep], after))"

record event =
  event_topic :: string
  event_payload :: string

text \<open>
  The body of the \<open>if\<close> in \<open>_process_zeromq_messages\<close> for one received message:
  the event that is handed to \<open>send_event\<close>.
\<close>

definition notification_event :: "string option \<Rightarrow> string \<Rightarrow> event" where
  "notification_event uid message =
     (case partition_space message of
        (topic, _, payload_part) \<Rightarrow>
          \<lparr>event_topic = ZEROMQ_NOTIFICATIONS_EVENT_TOPIC @ unique_id_segment uid @ ''/'' @ topic,
           event_payload = payload_part\<rparr>)"

text \<open>
  The listener thread reads three things from its environment in each turn of the
  loop: the flag \<open>__destroyed\<close> (written by \<open>destroy\<close> on another thread), the
  outcome of \<open>poll\<close> (\<open>None\<close> when it raised \<open>ZMQError\<close>, otherwise the list of
  pairs of a socket and its event mask), and the string that \<open>recv_string\<close> returns if
  it is called. A run of the thread is driven by the list of these readings; sockets
  are numbered, and \<open>zmq.POLLIN\<close> is 1.
\<close>

record iteration =
  destroyed_seen :: bool
  poll_outcome :: "(nat \<times> nat) list option"
  received :: string

definition POLLIN :: nat where
  "POLLIN = 1"

text \<open>
  \<open>socks = dict(poller.poll())\<close>, or \<open>{}\<close> after a \<open>ZMQError\<close>; in \<open>dict\<close> a later
  pair for the same key wins.
\<close>

definition socks_of :: "iteration \<Rightarrow> nat \<rightharpoonup> nat" where
  "socks_of it = (case poll_outcome it of None \<Rightarrow> Map.empty | Some pairs \<Rightarrow> map_of (rev pairs))"

definition readable :: "nat \<Rightarrow> iteration \<Rightarrow> bool" where
  "readable zeromq_socket it = (socks_of it zeromq_socket = Some POLLIN)"

datatype thread_status = Running | Exited

text \<open>
  \<open>MispService._process_zeromq_messages\<close>: the events sent so far are threaded
  through the loop. When the readings are used up without the flag having been seen
  set, the thread has not left the loop (\<open>Running\<close>).
\<close>

fun process_zeromq_messages ::
  "string option \<Rightarrow> nat \<Rightarrow> iteration list \<Rightarrow> event list \<Rightarrow> thread_status \<times> event list"
where
  "process_zeromq_messages uid zeromq_socket [] sent = (Running, sent)"
| "process_zeromq_messages uid zeromq_socket (it # rest) sent =
     (if destroyed_seen it then (Exited, sent)
      else if readable zeromq_socket it
      then process_zeromq_messages uid zeromq_socket rest
             (sent @ [notification_event uid (received it)])
      else process_zeromq_messages uid zeromq_socket rest sent)"

section \<open>Setting resolver\<close>

text \<open>
  \<open>str.strip()\<close> removes leading and trailing whitespace. Below code point 256 the
  whitespace characters of a Python 3 string are U+0009 to U+000D, U+001C to U+0020,
  U+0085 and U+00A0.
\<close>

definition py_isspace :: "char \<Rightarrow> bool" where
  "py_isspace c =
     (c \<in> set [CHR 0x09, CHR 0x0A, CHR 0x0B, CHR 0x0C, CHR 0x0D,
                CHR 0x1C, CHR 0x1D, CHR 0x1E, CHR 0x1F, CHR 0x20, CHR 0x85, CHR 0xA0])"

definition strip :: "string \<Rightarrow> string" where
  "strip s = rev (dropWhile py_isspace (rev (dropWhile py_isspace s)))"

text \<open>\<open>str.split(",")\<close>: the pieces between the commas; never an empty list.\<close>

fun split_comma :: "string \<Rightarrow> string list" where
  "split_comma [] = [[]]"
| "split_comma (c # cs) =
     (if c = CHR '','' then [] # split_comma cs
      else (case split_comma cs of
              [] \<Rightarrow> [[c]]
            | item # items \<Rightarrow> (c # item) # items))"

text \<open>
  The values of a setting: what the resolver returns for each expected type, and the
  defaults its callers declare (\<open>None\<close>, a number, a boolean, a list). A (finite)
  float is the rational number it denotes. \<open>truthy\<close> is the truth of a value in a
  boolean context.
\<close>

datatype setting_value =
    SNone
  | SStr string
  | SList "string list"
  | SBool bool
  | SInt int
  | SFloat rat

fun truthy :: "setting_value \<Rightarrow> bool" where
  "truthy SNone = False"
| "truthy (SStr s) = (s \<noteq> [])"
| "truthy (SList xs) = (xs \<noteq> [])"
| "truthy (SBool b) = b"
| "truthy (SInt n) = (n \<noteq> 0)"
| "truthy (SFloat x) = (x \<noteq> 0)"

text \<open>
  The configuration object is the standard library's parser; the resolver uses its
  test \<open>has_option\<close> and its four getters, each of which returns a value or raises.
  The file system enters through the application's \<open>_get_path\<close> (which resolves a
  path against the configuration directory) and \<open>os.path.isfile\<close>.
\<close>

record config =
  has_option :: "string \<Rightarrow> string \<Rightarrow> bool"
  get :: "string \<Rightarrow> string \<Rightarrow> py_exception + string"
  getboolean :: "string \<Rightarrow> string \<Rightarrow> py_exception + bool"
  getint :: "string \<Rightarrow> string \<Rightarrow> py_exception + int"
  getfloat :: "string \<Rightarrow> string \<Rightarrow> py_exception + rat"

record files =
  get_path :: "string \<Rightarrow> string"
  isfile :: "string \<Rightarrow> bool"

datatype return_type = T_str | T_list | T_bool | T_int | T_float

text \<open>\<open>getter_methods[return_type](section, setting)\<close>.\<close>

definition getter_methods ::
  "config \<Rightarrow> return_type \<Rightarrow> string \<Rightarrow> string \<Rightarrow> py_exception + setting_value"
where
  "getter_methods cfg rt section setting =
     (case rt of
        T_str \<Rightarrow> map_sum id SStr (get cfg section setting)
      | T_list \<Rightarrow> map_sum id SStr (get cfg section setting)
      | T_bool \<Rightarrow> map_sum id SBool (getboolean cfg section setting)
      | T_int \<Rightarrow> map_sum id SInt (getint cfg section setting)
      | T_float \<Rightarrow> map_sum id SFloat (getfloat cfg section setting))"

text \<open>
  Lines 108 to 140 of \<open>_get_setting_from_config\<close>: the value of the setting before
  the file check. Only \<open>ValueError\<close> of the getter is caught (and raised again as
  a \<open>ValueError\<close> with the resolver's message); any other exception passes through.
  \<open>len(x) is 0\<close> compares small integers and is read as equality.
\<close>

definition read_setting ::
  "config \<Rightarrow> string \<Rightarrow> string \<Rightarrow> setting_value \<Rightarrow> return_type \<Rightarrow> bool \<Rightarrow> py_exception + setting_value"
where
  "read_setting cfg section setting default_value rt raise_exception_if_missing =
     (if has_option cfg section setting then
        (case getter_methods cfg rt section setting of
           Inl ValueError \<Rightarrow> Inl ValueError
         | Inl ex \<Rightarrow> Inl ex
         | Inr (SStr raw) \<Rightarrow>
             (if rt = T_str then
                (let return_value = strip raw
                 in if length return_value = 0 \<and> raise_exception_if_missing
                    then Inl ValueError
                    else Inr (SStr return_value))
              else if rt = T_list then
                (let return_value = map strip (split_comma raw)
                 in if length return_value = 1 \<and> length (hd return_value) = 0
                       \<and> raise_exception_if_missing
                    then Inl ValueError
                    else Inr (SList return_value))
              else Inr (SStr raw))
         | Inr return_value \<Rightarrow> Inr return_value)
      else if raise_exception_if_missing then Inl ValueError
      else Inr default_value)"

text \<open>
  Lines 142 to 149: the file check runs only on a true value. A value that is not a
  string is no path: \<open>os.path\<close> raises \<open>TypeError\<close> on it (an integer is read as a
  file descriptor first; no caller sets the flag for a setting of such a type).
\<close>

definition check_file_path :: "files \<Rightarrow> bool \<Rightarrow> setting_value \<Rightarrow> py_exception + setting_value" where
  "check_file_path fs is_file_path return_value =
     (if is_file_path \<and> truthy return_value then
        (case return_value of
           SStr p \<Rightarrow>
             (let resolved = get_path fs p
              in if \<not> isfile fs resolved then Inl ValueError else Inr (SStr resolved))
         | _ \<Rightarrow> Inl TypeError)
      else Inr return_value)"

text \<open>\<open>MispService._get_setting_from_config\<close>.\<close>

definition get_setting_from_config ::
  "config \<Rightarrow> files \<Rightarrow> string \<Rightarrow> string \<Rightarrow> setting_value \<Rightarrow> return_type \<Rightarrow> bool \<Rightarrow> bool \<Rightarrow>
   py_exception + setting_value"
where
  "get_setting_from_config cfg fs section setting default_value rt
       raise_exception_if_missing is_file_path =
     (case read_setting cfg section setting default_value rt raise_exception_if_missing of
        Inl ex \<Rightarrow> Inl ex
      | Inr return_value \<Rightarrow> check_file_path fs is_file_path return_value)"

text \<open>
  The first statement of \<open>on_load_configuration\<close>: the unique id of the service is
  read as an optional string setting, without a default.
\<close>

definition GENERAL_CONFIG_SECTION :: string where
  "GENERAL_CONFIG_SECTION = ''General''"

definition GENERAL_SERVICE_UNIQUE_ID_PROP :: string where
  "GENERAL_SERVICE_UNIQUE_ID_PROP = ''serviceUniqueId''"

definition load_service_unique_id :: "config \<Rightarrow> files \<Rightarrow> py_exception + string option" where
  "load_service_unique_id cfg fs =
     (case get_setting_from_config cfg fs GENERAL_CONFIG_SECTION
             GENERAL_SERVICE_UNIQUE_ID_PROP SNone T_str False False of
        Inl ex \<Rightarrow> Inl ex
      | Inr (SStr s) \<Rightarrow> Inr (Some s)
      | Inr _ \<Rightarrow> Inr None)"

text \<open>
  An example: the section \<open>General\<close> of a configuration file with six settings,
  and a configuration object over it whose getters agree with the standard parser on
  these values (a boolean is one of the words below, a number is a string of decimal
  digits). The file system has one file, \<open>/etc/misp/cert.pem\<close>, and the
  configuration directory is \<open>/etc/misp\<close>.
\<close>

definition example_settings :: "(string \<times> string) list" where
  "example_settings =
     [(''host'', ''misp.example.com''),
      (''apiPort'', ''8443''),
      (''apiNames'', ''get_event, search ,''),
      (''verifyCertificate'', ''no''),
      (''verifyCertBundle'', []),
      (''clientCertificate'', ''cert.pem'')]"

definition example_lookup :: "string \<Rightarrow> string \<Rightarrow> py_exception + string" where
  "example_lookup section setting =
     (case (if section = ''General'' then map_of example_settings setting else None) of
        None \<Rightarrow> Inl (Raised ''NoOptionError'')
      | Some raw \<Rightarrow> Inr raw)"

definition example_config :: config where
  "example_config =
     \<lparr>has_option = (\<lambda>section setting.
         case example_lookup section setting of Inl ex \<Rightarrow> False | Inr raw \<Rightarrow> True),
      get = example_lookup,
      getboolean = (\<lambda>section setting.
         case example_lookup section setting of
           Inl ex \<Rightarrow> Inl ex
         | Inr raw \<Rightarrow>
             (if raw \<in> set [''1'', ''yes'', ''true'', ''on''] then Inr True
              else if raw \<in> set [''0'', ''no'', ''false'', ''off''] then Inr False
              else Inl ValueError)),
      getint = (\<lambda>section setting.
         case example_lookup section setting of Inl ex \<Rightarrow> Inl ex | Inr raw \<Rightarrow> py_int raw),
      getfloat = (\<lambda>section setting.
         case example_lookup section setting of
           Inl ex \<Rightarrow> Inl ex
         | Inr raw \<Rightarrow> map_sum id of_int (py_int raw))\<rparr>"

definition example_files :: files where
  "example_files =
     \<lparr>get_path = (\<lambda>p. if p = ''cert.pem'' then ''/etc/misp/cert.pem'' else p),
      isfile = (\<lambda>p. p = ''/etc/misp/cert.pem'')\<rparr>"

section \<open>Shutdown\<close>

text \<open>
  \<open>MispService.destroy\<close>, statement by statement, for any number of calling threads
  that run interleaved with each other and with the listener thread. A caller is at
  one of the following points of the method.
\<close>

datatype pc =
    Idle       \<comment> \<open>not inside \<open>destroy\<close>\<close>
  | Called     \<comment> \<open>after \<open>super().destroy()\<close>, before \<open>with self.__lock\<close>\<close>
  | Locked     \<comment> \<open>holds the lock, before \<open>if not self.__destroyed\<close>\<close>
  | Flagged    \<comment> \<open>after \<open>self.__destroyed = True\<close>\<close>
  | Closed     \<comment> \<open>after the \<open>if\<close> that closes the socket\<close>
  | Joining    \<comment> \<open>inside \<open>self._zeromq_thread.join()\<close>\<close>
  | Joined     \<comment> \<open>after the \<open>if\<close> that joins the thread, still holding the lock\<close>
  | Returned   \<comment> \<open>the call has returned\<close>

text \<open>
  The shared state: the owner of \<open>__lock\<close>, the flag \<open>__destroyed\<close>, whether
  \<open>_zeromq_socket\<close> and \<open>_zeromq_thread\<close> were created (the thread with its
  status), and counters of what has been done: calls of the base class's
  \<open>destroy\<close>, calls of \<open>close\<close> on the socket, calls of \<open>join\<close>, and exits of the
  listener from its loop.
\<close>

record teardown =
  lock :: "nat option"
  destroyed :: bool
  zeromq_socket :: bool
  zeromq_thread :: "thread_status option"
  super_destroys :: nat
  closes :: nat
  joins :: nat
  exits :: nat
  pcs :: "nat \<Rightarrow> pc"

definition initial :: "bool \<Rightarrow> bool \<Rightarrow> teardown" where
  "initial has_socket has_thread =
     \<lparr>lock = None, destroyed = False, zeromq_socket = has_socket,
      zeromq_thread = (if has_thread then Some Running else None),
      super_destroys = 0, closes = 0, joins = 0, exits = 0, pcs = (\<lambda>t. Idle)\<rparr>"

text \<open>
  One step of caller \<open>t\<close>; \<open>None\<close> means that the caller cannot move now: it waits
  for the lock, which another thread holds, or it waits in \<open>join\<close> for the listener
  to end. A caller that has returned may call \<open>destroy\<close> again. No caller holds the
  lock when it reaches the \<open>with\<close> statement, so the lock is never entered twice
  by its owner.
\<close>

definition caller_step :: "nat \<Rightarrow> teardown \<Rightarrow> teardown option" where
  "caller_step t s =
     (case pcs s t of
        Idle \<Rightarrow> Some (s\<lparr>super_destroys := Suc (super_destroys s), pcs := (pcs s)(t := Called)\<rparr>)
      | Called \<Rightarrow>
          (case lock s of
             None \<Rightarrow> Some (s\<lparr>lock := Some t, pcs := (pcs s)(t := Locked)\<rparr>)
           | Some owner \<Rightarrow> None)
      | Locked \<Rightarrow>
          (if \<not> destroyed s
           then Some (s\<lparr>destroyed := True, pcs := (pcs s)(t := Flagged)\<rparr>)
           else Some (s\<lparr>lock := None, pcs := (pcs s)(t := Returned)\<rparr>))
      | Flagged \<Rightarrow>
          (if zeromq_socket s
           then Some (s\<lparr>closes := Suc (closes s), pcs := (pcs s)(t := Closed)\<rparr>)
           else Some (s\<lparr>pcs := (pcs s)(t := Closed)\<rparr>))
      | Closed \<Rightarrow>
          (case zeromq_thread s of
             None \<Rightarrow> Some (s\<lparr>pcs := (pcs s)(t := Joined)\<rparr>)
           | Some status \<Rightarrow> Some (s\<lparr>joins := Suc (joins s), pcs := (pcs s)(t := Joining)\<rparr>))
      | Joining \<Rightarrow>
          (if zeromq_thread s = Some Exited
           then Some (s\<lparr>pcs := (pcs s)(t := Joined)\<rparr>)
           else None)
      | Joined \<Rightarrow> Some (s\<lparr>lock := None, pcs := (pcs s)(t := Returned)\<rparr>)
      | Returned \<Rightarrow> Some (s\<lparr>pcs := (pcs s)(t := Idle)\<rparr>))"

text \<open>
  One turn of the listener's loop, seen from the shared state: it tests the flag,
  and leaves the loop if the flag is set; otherwise the turn changes nothing here.
\<close>

definition listener_step :: "teardown \<Rightarrow> teardown option" where
  "listener_step s =
     (case zeromq_thread s of
        Some Running \<Rightarrow>
          (if destroyed s
           then Some (s\<lparr>zeromq_thread := Some Exited, exits := Suc (exits s)\<rparr>)
           else Some s)
      | _ \<Rightarrow> None)"

datatype action = Caller nat | Listener

fun step :: "action \<Rightarrow> teardown \<Rightarrow> teardown option" where
  "step (Caller t) s = caller_step t s"
| "step Listener s = listener_step s"

text \<open>
  A schedule is the order in which the threads move. \<open>run\<close> executes it, and yields
  \<open>None\<close> if it asks a thread to move that cannot.
\<close>

fun run :: "action list \<Rightarrow> teardown \<Rightarrow> teardown option" where
  "run [] s = Some s"
| "run (a # schedule) s = (case step a s of None \<Rightarrow> None | Some s' \<Rightarrow> run schedule s')"

definition in_lock :: "pc \<Rightarrow> bool" where
  "in_lock p = (p = Locked \<or> p = Flagged \<or> p = Closed \<or> p = Joining \<or> p = Joined)"

definition count_of :: "bool \<Rightarrow> nat" where
  "count_of b = (if b then 1 else 0)"

text \<open>The state once the teardown is complete.\<close>

definition torn_down :: "teardown \<Rightarrow> bool" where
  "torn_down s =
     (destroyed s \<and> closes s = count_of (zeromq_socket s) \<and>
      joins s = count_of (zeromq_thread s \<noteq> None) \<and> zeromq_thread s \<noteq> Some Running)"

text \<open>
  The invariant of all runs: the lock is held by exactly the caller inside the
  \<open>with\<close> block; the counters are those of the point the lock's owner has reached
  (\<open>phase\<close>); without an owner in the middle of the teardown the state is either
  untouched or torn down; and a call has returned only if the teardown is complete.
\<close>

definition phase :: "teardown \<Rightarrow> pc" where
  "phase s = (case lock s of None \<Rightarrow> Idle | Some t \<Rightarrow> pcs s t)"

definition settled :: "teardown \<Rightarrow> bool" where
  "settled s = (if destroyed s then torn_down s else closes s = 0 \<and> joins s = 0)"

definition none_returned :: "teardown \<Rightarrow> bool" where
  "none_returned s = (\<forall>t. pcs s t \<noteq> Returned)"

fun phase_ok :: "pc \<Rightarrow> teardown \<Rightarrow> bool" where
  "phase_ok Flagged s = (destroyed s \<and> closes s = 0 \<and> joins s = 0 \<and> none_returned s)"
| "phase_ok Closed s =
     (destroyed s \<and> closes s = count_of (zeromq_socket s) \<and> joins s = 0 \<and> none_returned s)"
| "phase_ok Joining s =
     (destroyed s \<and> closes s = count_of (zeromq_socket s) \<and> joins s = 1 \<and>
      zeromq_thread s \<noteq> None \<and> none_returned s)"
| "phase_ok Joined s = torn_down s"
| "phase_ok Idle s = settled s"
| "phase_ok Called s = settled s"
| "phase_ok Locked s = settled s"
| "phase_ok Returned s = settled s"

definition teardown_inv :: "teardown \<Rightarrow> bool" where
  "teardown_inv s =
     ((\<forall>t. in_lock (pcs s t) \<longleftrightarrow> lock s = Some t) \<and>
      exits s = count_of (zeromq_thread s = Some Exited) \<and>
      (zeromq_thread s = Some Exited \<longrightarrow> destroyed s) \<and>
      (\<not> none_returned s \<longrightarrow> torn_down s) \<and>
      phase_ok (phase s) s)"

section \<open>Properties of the registry\<close>

lemma get_api_method_resolves:
  "get_api_method client n = (if resolves client n then client n else None)"
  by (simp add: get_api_method_def resolves_def split: option.splits)

lemma resolve_api_names_acc:
  "resolve_api_names client names (ms, lg) =
     (ms @ List.map_filter (get_api_method client) names,
      lg @ map Warning_invalid_api_name (filter (\<lambda>n. \<not> resolves client n) names))"
proof (induction names arbitrary: ms lg)
  case Nil
  then show ?case by simp
next
  case (Cons n names)
  show ?case
  proof (cases "get_api_method client n")
    case None
    then have "\<not> resolves client n"
      by (auto simp: get_api_method_def resolves_def split: option.splits if_splits)
    with None Cons show ?thesis by simp
  next
    case (Some m)
    then have "resolves client n"
      by (auto simp: get_api_method_def resolves_def split: option.splits if_splits)
    with Some Cons show ?thesis by simp
  qed
qed

lemma map_filter_get_api_method:
  "List.map_filter (get_api_method client) names =
     map (\<lambda>n. the (client n)) (filter (resolves client) names)"
  by (induction names)
     (auto simp: List.map_filter_simps get_api_method_resolves resolves_def
           split: option.splits)

lemma reported_names_warnings [simp]:
  "reported_names (map Warning_invalid_api_name ns) = ns"
  by (induction ns) (simp_all add: reported_names_def)

lemma reported_names_append [simp]:
  "reported_names (xs @ ys) = reported_names xs @ reported_names ys"
  by (simp add: reported_names_def)

lemma reported_names_service [simp]:
  "reported_names (Info_registering_service # lg) = reported_names lg"
  by (simp add: reported_names_def)

lemma reported_names_callbacks [simp]:
  "reported_names (map (\<lambda>m. Info_registering_callback (f m) (g m)) ms) = []"
  by (induction ms) (simp_all add: reported_names_def)

lemma add_callbacks_eq:
  "add_callbacks uid ms r =
     r\<lparr>log := log r @ map (\<lambda>m. Info_registering_callback
                                  (callback_log_name uid (dunder_name m))
                                  (service_topic uid (dunder_name m))) ms,
       callbacks := callbacks r @
         map (\<lambda>m. \<lparr>cb_service = SERVICE_TYPE,
                    cb_topic = service_topic uid (dunder_name m),
                    cb_method = m\<rparr>) ms\<rparr>"
  by (induction ms arbitrary: r) (simp_all add: Let_def)

lemma on_register_services_eq:
  "on_register_services client uid names =
     (let ms = resolved_methods client names;
          warnings = map Warning_invalid_api_name (filter (\<lambda>n. \<not> resolves client n) names)
      in if ms \<noteq> [] then
           \<lparr>log = warnings @ [Info_registering_service] @
                   map (\<lambda>m. Info_registering_callback
                               (callback_log_name uid (dunder_name m))
                               (service_topic uid (dunder_name m))) ms,
            callbacks = map (\<lambda>m. \<lparr>cb_service = SERVICE_TYPE,
                                     cb_topic = service_topic uid (dunder_name m),
                                     cb_method = m\<rparr>) ms,
            services = [SERVICE_TYPE]\<rparr>
         else \<lparr>log = warnings, callbacks = [], services = []\<rparr>)"
  by (simp add: on_register_services_def resolved_methods_def resolve_api_names_acc
        add_callbacks_eq no_registration_def Let_def)

lemma resolved_methods_eq:
  "map Some (resolved_methods client names) = map client (filter (resolves client) names)"
proof -
  have "map Some (List.map_filter (get_api_method client) names) =
        map client (filter (resolves client) names)"
    by (induction names)
       (auto simp: get_api_method_resolves resolves_def split: option.splits)
  then show ?thesis
    by (simp add: resolved_methods_def resolve_api_names_acc)
qed

text \<open>
  Claim C1. For every configured list of operation names, the registration loop
  resolves exactly the names that exist as attributes of the API client and are
  callable, in the order of the input list (the resolved methods are the client's
  attributes at those names); every other name is reported by one warning, in input
  order, and is omitted; the request callbacks that are then registered carry exactly
  the resolved methods, so a rejected name never aborts the registration of the others.
\<close>

theorem resolve_exact_subset_in_order:
  "map Some (resolved_methods client names) = map client (filter (resolves client) names)
   \<and> reported_names (log (on_register_services client uid names))
       = filter (\<lambda>n. \<not> resolves client n) names
   \<and> map cb_method (callbacks (on_register_services client uid names))
       = resolved_methods client names"
proof (intro conjI)
  show "map Some (resolved_methods client names) = map client (filter (resolves client) names)"
    by (rule resolved_methods_eq)
  show "reported_names (log (on_register_services client uid names))
          = filter (\<lambda>n. \<not> resolves client n) names"
    by (simp add: on_register_services_eq Let_def)
  show "map cb_method (callbacks (on_register_services client uid names))
          = resolved_methods client names"
    by (simp add: on_register_services_eq Let_def comp_def)
qed



section \<open>Properties of the request dispatcher\<close>

lemma on_request_raises:
  "request_kwargs json_loads req = Inr kw \<Longrightarrow> api_method kw = Inl e \<Longrightarrow>
   on_request json_loads json_dumps api_method req w =
     (Inl e, w\<lparr>invocations := invocations w @ [kw]\<rparr>)"
  by (simp add: on_request_def)

lemma on_request_returns:
  "request_kwargs json_loads req = Inr kw \<Longrightarrow> api_method kw = Inr r \<Longrightarrow>
   on_request json_loads json_dumps api_method req w =
     (Inr (), \<lparr>invocations = invocations w @ [kw],
               responses = responses w @
                 [\<lparr>in_reply_to = req, response_payload = json_dumps r\<rparr>]\<rparr>)"
  by (simp add: on_request_def)

lemma on_request_not_invoked:
  "request_kwargs json_loads req = Inl e \<Longrightarrow>
   on_request json_loads json_dumps api_method req w = (Inl e, w)"
  by (simp add: on_request_def)



text \<open>
  Claim C4. A request whose payload is absent (\<open>None\<close>) or empty is not decoded:
  the request dictionary is the empty mapping, and the bound operation is invoked
  once, with no arguments.
\<close>

theorem empty_payload_invokes_without_arguments:
  assumes "payload req = None \<or> payload req = Some []"
  shows "decode_payload json_loads req = Inr (PDict Map.empty) \<and>
         request_kwargs json_loads req = Inr Map.empty \<and>
         invocations (snd (on_request json_loads json_dumps api_method req w))
           = invocations w @ [Map.empty]"
proof -
  from assms have d: "decode_payload json_loads req = Inr (PDict Map.empty)"
    by (auto simp: decode_payload_def)
  then have k: "request_kwargs json_loads req = Inr Map.empty"
    by (simp add: request_kwargs_def coerce_event_def)
  then have "invocations (snd (on_request json_loads json_dumps api_method req w))
               = invocations w @ [Map.empty]"
    by (simp add: on_request_def Let_def split: sum.splits)
  with d k show ?thesis by simp
qed

theorem empty_payload_invokes_without_arguments_witness:
  "invocations (snd (on_request (\<lambda>bytes. Inl ValueError) (\<lambda>v. ''null'') (\<lambda>kw. Inr PNone)
       \<lparr>destination_topic = ''t'', payload = None\<rparr> \<lparr>invocations = [], responses = []\<rparr>))
     = [Map.empty] \<and>
   invocations (snd (on_request (\<lambda>bytes. Inl ValueError) (\<lambda>v. ''null'') (\<lambda>kw. Inr PNone)
       \<lparr>destination_topic = ''t'', payload = Some []\<rparr> \<lparr>invocations = [], responses = []\<rparr>))
     = [Map.empty]"
  using empty_payload_invokes_without_arguments
          [of "\<lparr>destination_topic = ''t'', payload = None\<rparr>" "\<lambda>bytes. Inl ValueError"
              "\<lambda>v. ''null''" "\<lambda>kw. Inr PNone" "\<lparr>invocations = [], responses = []\<rparr>"]
        empty_payload_invokes_without_arguments
          [of "\<lparr>destination_topic = ''t'', payload = Some []\<rparr>" "\<lambda>bytes. Inl ValueError"
              "\<lambda>v. ''null''" "\<lambda>kw. Inr PNone" "\<lparr>invocations = [], responses = []\<rparr>"]
  by simp

subsection \<open>The repair of the field \<open>event\<close>\<close>

lemma decimal_value_Cons:
  "decimal_value (c # s) = digit_value c * 10 ^ length s + decimal_value s"
  by (simp add: decimal_value_def sum.lessThan_Suc_shift del: sum.lessThan_Suc)

lemma foldl_decimal:
  "foldl (\<lambda>acc c. 10 * acc + digit_value c) a s = a * 10 ^ length s + decimal_value s"
proof (induction s arbitrary: a)
  case Nil
  show ?case by (simp add: decimal_value_def)
next
  case (Cons c s)
  have "foldl (\<lambda>acc c. 10 * acc + digit_value c) a (c # s) =
        (10 * a + digit_value c) * 10 ^ length s + decimal_value s"
    by (simp add: Cons.IH)
  also have "\<dots> = a * 10 ^ length (c # s) + decimal_value (c # s)"
    by (simp add: decimal_value_Cons algebra_simps)
  finally show ?case .
qed

lemma py_int_decimal:
  "s \<noteq> [] \<Longrightarrow> list_all decimal_char s \<Longrightarrow> py_int s = Inr (decimal_value s)"
  by (simp add: py_int_def foldl_decimal)

lemma decimal_isdigit: "s \<noteq> [] \<Longrightarrow> list_all decimal_char s \<Longrightarrow> isdigit s"
  by (simp add: isdigit_def isdigit_char_def list_all_iff)

text \<open>
  On a dictionary whose \<open>event\<close> is a non-empty string of the decimal digits \<open>0\<close>
  to \<open>9\<close>, the repair stores the integer that the string denotes in base ten.
\<close>

lemma coerce_event_decimal:
  assumes "request_dict ''event'' = Some (PStr s)" "s \<noteq> []" "list_all decimal_char s"
  shows "coerce_event request_dict = Inr (request_dict(''event'' \<mapsto> PInt (decimal_value s)))"
  using assms by (simp add: coerce_event_def decimal_isdigit py_int_decimal)

text \<open>Any \<open>event\<close> that is not a string passing \<open>isdigit\<close>, or no \<open>event\<close>, is left alone.\<close>

lemma coerce_event_unchanged:
  assumes "\<forall>s. request_dict ''event'' = Some (PStr s) \<longrightarrow> \<not> isdigit s"
  shows "coerce_event request_dict = Inr request_dict"
  using assms by (auto simp: coerce_event_def split: option.splits py_value.splits)

text \<open>Whenever the repair succeeds, every field other than \<open>event\<close> is as it was.\<close>

lemma coerce_event_other_fields:
  "coerce_event request_dict = Inr kw \<Longrightarrow> k \<noteq> ''event'' \<Longrightarrow> kw k = request_dict k"
  by (auto simp: coerce_event_def split: option.splits py_value.splits if_splits sum.splits)

text \<open>
  The same at the level of the handler: with a decimal \<open>event\<close> the operation is
  called with the integer in its place, and with any \<open>event\<close> that does not pass
  \<open>isdigit\<close>, or none, it is called with the decoded dictionary itself.
\<close>

lemma on_request_decimal_event:
  assumes "payload req = Some bytes" "bytes \<noteq> []" "json_loads bytes = Inr (PDict d)"
    and "d ''event'' = Some (PStr s)" "s \<noteq> []" "list_all decimal_char s"
  shows "invocations (snd (on_request json_loads json_dumps api_method req w)) =
           invocations w @ [d(''event'' \<mapsto> PInt (decimal_value s))]"
proof -
  from assms(1-3) have "decode_payload json_loads req = Inr (PDict d)"
    by (simp add: decode_payload_def)
  with coerce_event_decimal [of d s, OF assms(4-6)]
  have "request_kwargs json_loads req = Inr (d(''event'' \<mapsto> PInt (decimal_value s)))"
    by (simp add: request_kwargs_def)
  then show ?thesis
    by (simp add: on_request_def Let_def split: sum.splits)
qed

lemma on_request_other_event:
  assumes "payload req = Some bytes" "bytes \<noteq> []" "json_loads bytes = Inr (PDict d)"
    and "\<forall>s. d ''event'' = Some (PStr s) \<longrightarrow> \<not> isdigit s"
  shows "invocations (snd (on_request json_loads json_dumps api_method req w)) =
           invocations w @ [d]"
proof -
  from assms(1-3) have "decode_payload json_loads req = Inr (PDict d)"
    by (simp add: decode_payload_def)
  with coerce_event_unchanged [of d, OF assms(4)]
  have "request_kwargs json_loads req = Inr d"
    by (simp add: request_kwargs_def)
  then show ?thesis
    by (simp add: on_request_def Let_def split: sum.splits)
qed

text \<open>
  Claim C2, at the request with payload \<open>{"event": "\<twosuperior>"}\<close>. The string
  \<open>"\<twosuperior>"\<close> passes \<open>isdigit\<close>, and \<open>int\<close> rejects it: the handler ends with
  \<open>ValueError\<close> before the operation is invoked, so the value of \<open>event\<close> reaches the
  operation neither as an integer nor unchanged, and no response is sent.
\<close>

theorem superscript_digit_event_raises_before_invocation:
  "on_request superscript_two_loads (\<lambda>v. ''null'') (\<lambda>kw. Inr PNone)
     superscript_two_request \<lparr>invocations = [], responses = []\<rparr>
   = (Inl ValueError, \<lparr>invocations = [], responses = []\<rparr>)"
  by (simp add: on_request_def request_kwargs_def decode_payload_def coerce_event_def
        superscript_two_request_def superscript_two_loads_def superscript_two_payload_def
        isdigit_def isdigit_char_def py_int_def decimal_char_def)

section \<open>Properties of the notification relay\<close>

lemma partition_space_split:
  assumes "CHR '' '' \<notin> set t"
  shows "partition_space (t @ CHR '' '' # p) = (t, '' '', p)"
proof -
  from assms have all: "\<forall>c \<in> set t. c \<noteq> CHR '' ''" by auto
  then have "dropWhile (\<lambda>c. c \<noteq> CHR '' '') (t @ CHR '' '' # p) = CHR '' '' # p"
    by (simp add: dropWhile_append2)
  moreover from all have "takeWhile (\<lambda>c. c \<noteq> CHR '' '') (t @ CHR '' '' # p) = t"
    by (simp add: takeWhile_append2)
  ultimately show ?thesis by (simp add: partition_space_def)
qed

lemma partition_space_none:
  assumes "CHR '' '' \<notin> set s"
  shows "partition_space s = (s, [], [])"
proof -
  from assms have "dropWhile (\<lambda>c. c \<noteq> CHR '' '') s = []" by auto
  then show ?thesis unfolding partition_space_def by (simp only: list.case)
qed

lemma process_zeromq_messages_eq:
  "process_zeromq_messages uid sock its sent =
     ((if \<exists>it \<in> set its. destroyed_seen it then Exited else Running),
      sent @ map (\<lambda>it. notification_event uid (received it))
               (filter (readable sock) (takeWhile (\<lambda>it. \<not> destroyed_seen it) its)))"
  by (induction its arbitrary: sent) auto

text \<open>
  Claim C5. The events published by the listener are, in order, one event for each
  message it received (the readings, before the flag is seen set, in which the
  socket was readable). The event of a message \<open>t p\<close> with a first space between
  \<open>t\<close> and \<open>p\<close> has the payload \<open>p\<close> and the topic made of the notification base
  topic, then \<open>/<id>\<close> if a non-empty unique id is configured, then \<open>/t\<close>. A message
  without a space is its own topic, with an empty payload.
\<close>

theorem relay_one_event_per_message_in_order:
  "snd (process_zeromq_messages uid sock its sent) =
     sent @ map (notification_event uid)
              (map received (filter (readable sock)
                               (takeWhile (\<lambda>it. \<not> destroyed_seen it) its)))
   \<and> (CHR '' '' \<notin> set t \<longrightarrow>
        notification_event None (t @ '' '' @ p) =
          \<lparr>event_topic = ZEROMQ_NOTIFICATIONS_EVENT_TOPIC @ ''/'' @ t, event_payload = p\<rparr> \<and>
        (i \<noteq> [] \<longrightarrow>
           notification_event (Some i) (t @ '' '' @ p) =
             \<lparr>event_topic = ZEROMQ_NOTIFICATIONS_EVENT_TOPIC @ ''/'' @ i @ ''/'' @ t,
              event_payload = p\<rparr>) \<and>
        notification_event uid t =
          \<lparr>event_topic = ZEROMQ_NOTIFICATIONS_EVENT_TOPIC @ unique_id_segment uid @ ''/'' @ t,
           event_payload = []\<rparr>)"
proof (intro conjI impI)
  show "snd (process_zeromq_messages uid sock its sent) =
     sent @ map (notification_event uid)
              (map received (filter (readable sock)
                               (takeWhile (\<lambda>it. \<not> destroyed_seen it) its)))"
    by (simp add: process_zeromq_messages_eq comp_def)
next
  assume t: "CHR '' '' \<notin> set t"
  then show "notification_event None (t @ '' '' @ p) =
          \<lparr>event_topic = ZEROMQ_NOTIFICATIONS_EVENT_TOPIC @ ''/'' @ t, event_payload = p\<rparr>"
    by (simp add: notification_event_def partition_space_split unique_id_segment_def)
  from t show "notification_event uid t =
          \<lparr>event_topic = ZEROMQ_NOTIFICATIONS_EVENT_TOPIC @ unique_id_segment uid @ ''/'' @ t,
           event_payload = []\<rparr>"
    by (simp add: notification_event_def partition_space_none)
  assume "i \<noteq> []"
  with t show "notification_event (Some i) (t @ '' '' @ p) =
             \<lparr>event_topic = ZEROMQ_NOTIFICATIONS_EVENT_TOPIC @ ''/'' @ i @ ''/'' @ t,
              event_payload = p\<rparr>"
    by (simp add: notification_event_def partition_space_split unique_id_segment_def)
qed

theorem relay_one_event_per_message_in_order_witness:
  "CHR '' '' \<notin> set ''foo/bar'' \<and> ''x'' \<noteq> [] \<and>
   notification_event None ''foo/bar hello world'' =
     \<lparr>event_topic = ''/opendxl-misp/service/zeromq-notifications/foo/bar'',
      event_payload = ''hello world''\<rparr> \<and>
   notification_event (Some ''x'') ''foo/bar hello world'' =
     \<lparr>event_topic = ''/opendxl-misp/service/zeromq-notifications/x/foo/bar'',
      event_payload = ''hello world''\<rparr> \<and>
   snd (process_zeromq_messages None 3
          [\<lparr>destroyed_seen = False, poll_outcome = Some [(3, 1)], received = ''a 1''\<rparr>,
           \<lparr>destroyed_seen = False, poll_outcome = Some [], received = ''''\<rparr>,
           \<lparr>destroyed_seen = False, poll_outcome = Some [(3, 1)], received = ''b 2''\<rparr>] []) =
     [notification_event None ''a 1'', notification_event None ''b 2'']"
  using relay_one_event_per_message_in_order
          [of None 3
              "[\<lparr>destroyed_seen = False, poll_outcome = Some [(3, 1)], received = ''a 1''\<rparr>,
                \<lparr>destroyed_seen = False, poll_outcome = Some [], received = ''''\<rparr>,
                \<lparr>destroyed_seen = False, poll_outcome = Some [(3, 1)], received = ''b 2''\<rparr>]"
              "[]" "''foo/bar''" "''hello world''" "''x''"]
  by (simp add: readable_def socks_of_def POLLIN_def ZEROMQ_NOTIFICATIONS_EVENT_TOPIC_def
        SERVICE_BASE_NAME_def)



section \<open>Properties of the setting resolver\<close>

lemma strip_empty_iff: "strip s = [] \<longleftrightarrow> list_all py_isspace s"
proof -
  have "strip s = [] \<longleftrightarrow> (\<forall>c \<in> set (dropWhile py_isspace s). py_isspace c)"
    by (simp add: strip_def)
  also have "\<dots> \<longleftrightarrow> dropWhile py_isspace s = []"
  proof
    assume a: "\<forall>c \<in> set (dropWhile py_isspace s). py_isspace c"
    show "dropWhile py_isspace s = []"
    proof (rule ccontr)
      assume "dropWhile py_isspace s \<noteq> []"
      then have "\<not> py_isspace (hd (dropWhile py_isspace s))" by (rule hd_dropWhile)
      moreover from \<open>dropWhile py_isspace s \<noteq> []\<close>
      have "hd (dropWhile py_isspace s) \<in> set (dropWhile py_isspace s)" by simp
      ultimately show False using a by blast
    qed
  next
    assume "dropWhile py_isspace s = []"
    then show "\<forall>c \<in> set (dropWhile py_isspace s). py_isspace c"
      by (simp only: list.set ball_empty)
  qed
  also have "\<dots> \<longleftrightarrow> list_all py_isspace s"
    by (simp add: list_all_iff dropWhile_eq_Nil_conv)
  finally show ?thesis .
qed






lemma read_setting_absent:
  "\<not> has_option cfg section setting \<Longrightarrow>
   read_setting cfg section setting dv rt req = (if req then Inl ValueError else Inr dv)"
  by (simp add: read_setting_def)

lemma read_setting_str:
  "has_option cfg section setting \<Longrightarrow>
   read_setting cfg section setting dv T_str req =
     (case get cfg section setting of
        Inl ex \<Rightarrow> Inl ex
      | Inr raw \<Rightarrow> (if strip raw = [] \<and> req then Inl ValueError else Inr (SStr (strip raw))))"
  by (simp add: read_setting_def getter_methods_def Let_def
      split: sum.splits py_exception.splits)











section \<open>The unique id in derived topics\<close>

lemma unique_id_segment_empty_iff:
  "unique_id_segment uid = [] \<longleftrightarrow> uid = None \<or> uid = Some []"
  by (cases uid) (simp_all add: unique_id_segment_def)

lemma load_service_unique_id_blank:
  assumes "has_option cfg GENERAL_CONFIG_SECTION GENERAL_SERVICE_UNIQUE_ID_PROP"
    and "get cfg GENERAL_CONFIG_SECTION GENERAL_SERVICE_UNIQUE_ID_PROP = Inr raw"
    and "list_all py_isspace raw"
  shows "load_service_unique_id cfg fs = Inr (Some [])"
proof -
  from assms(3) have "strip raw = []" by (simp add: strip_empty_iff)
  with assms(1,2)
  have "read_setting cfg GENERAL_CONFIG_SECTION GENERAL_SERVICE_UNIQUE_ID_PROP SNone T_str False
          = Inr (SStr [])"
    by (simp add: read_setting_str)
  then show ?thesis
    by (simp add: load_service_unique_id_def get_setting_from_config_def check_file_path_def)
qed

lemma load_service_unique_id_absent:
  assumes "\<not> has_option cfg GENERAL_CONFIG_SECTION GENERAL_SERVICE_UNIQUE_ID_PROP"
  shows "load_service_unique_id cfg fs = Inr None"
  using assms
  by (simp add: load_service_unique_id_def get_setting_from_config_def check_file_path_def
        read_setting_absent)

text \<open>
  Claim C10. A unique id that is configured as the empty string, or as whitespace
  only, is loaded as the empty string, and an id that is not configured as \<open>None\<close>;
  the two give the same service topics, the same registration and the same
  notification events. A derived topic has no id segment, that is, it is the base
  followed directly by \<open>/<name>\<close>, exactly if the id is empty or \<open>None\<close>; a
  non-empty id \<open>i\<close> always contributes the segment \<open>/i\<close>.
\<close>

theorem empty_unique_id_like_absent:
  "(has_option cfg GENERAL_CONFIG_SECTION GENERAL_SERVICE_UNIQUE_ID_PROP \<and>
      get cfg GENERAL_CONFIG_SECTION GENERAL_SERVICE_UNIQUE_ID_PROP = Inr raw \<and>
      list_all py_isspace raw \<longrightarrow> load_service_unique_id cfg fs = Inr (Some []))
   \<and> (\<not> has_option cfg GENERAL_CONFIG_SECTION GENERAL_SERVICE_UNIQUE_ID_PROP \<longrightarrow>
        load_service_unique_id cfg fs = Inr None)
   \<and> service_topic (Some []) name = service_topic None name
   \<and> on_register_services client (Some []) names = on_register_services client None names
   \<and> notification_event (Some []) message = notification_event None message
   \<and> (service_topic uid name = SERVICE_TYPE @ ''/'' @ name \<longleftrightarrow> uid = None \<or> uid = Some [])
   \<and> (event_topic (notification_event uid message) =
          ZEROMQ_NOTIFICATIONS_EVENT_TOPIC @ ''/'' @ fst (partition_space message)
        \<longleftrightarrow> uid = None \<or> uid = Some [])
   \<and> (i \<noteq> [] \<longrightarrow>
        service_topic (Some i) name = SERVICE_TYPE @ ''/'' @ i @ ''/'' @ name \<and>
        event_topic (notification_event (Some i) message) =
          ZEROMQ_NOTIFICATIONS_EVENT_TOPIC @ ''/'' @ i @ ''/'' @ fst (partition_space message))"
proof (intro conjI)
  show "has_option cfg GENERAL_CONFIG_SECTION GENERAL_SERVICE_UNIQUE_ID_PROP \<and>
      get cfg GENERAL_CONFIG_SECTION GENERAL_SERVICE_UNIQUE_ID_PROP = Inr raw \<and>
      list_all py_isspace raw \<longrightarrow> load_service_unique_id cfg fs = Inr (Some [])"
    using load_service_unique_id_blank by blast
  show "\<not> has_option cfg GENERAL_CONFIG_SECTION GENERAL_SERVICE_UNIQUE_ID_PROP \<longrightarrow>
        load_service_unique_id cfg fs = Inr None"
    using load_service_unique_id_absent by blast
  show "service_topic (Some []) name = service_topic None name"
    by (simp add: service_topic_def unique_id_segment_def)
  show "on_register_services client (Some []) names = on_register_services client None names"
    by (simp add: on_register_services_eq service_topic_def unique_id_segment_def
          callback_log_name_def Let_def)
  show "notification_event (Some []) message = notification_event None message"
    by (simp add: notification_event_def unique_id_segment_def)
  have "service_topic uid name = SERVICE_TYPE @ ''/'' @ name \<longleftrightarrow> unique_id_segment uid = []"
    by (simp add: service_topic_def)
  then show "service_topic uid name = SERVICE_TYPE @ ''/'' @ name
               \<longleftrightarrow> uid = None \<or> uid = Some []"
    by (simp add: unique_id_segment_empty_iff)
  have "event_topic (notification_event uid message) =
          ZEROMQ_NOTIFICATIONS_EVENT_TOPIC @ ''/'' @ fst (partition_space message)
        \<longleftrightarrow> unique_id_segment uid = []"
    by (simp add: notification_event_def split: prod.splits)
  then show "event_topic (notification_event uid message) =
          ZEROMQ_NOTIFICATIONS_EVENT_TOPIC @ ''/'' @ fst (partition_space message)
        \<longleftrightarrow> uid = None \<or> uid = Some []"
    by (simp add: unique_id_segment_empty_iff)
  show "i \<noteq> [] \<longrightarrow>
        service_topic (Some i) name = SERVICE_TYPE @ ''/'' @ i @ ''/'' @ name \<and>
        event_topic (notification_event (Some i) message) =
          ZEROMQ_NOTIFICATIONS_EVENT_TOPIC @ ''/'' @ i @ ''/'' @ fst (partition_space message)"
    by (simp add: service_topic_def notification_event_def unique_id_segment_def
          split: prod.splits)
qed

theorem empty_unique_id_like_absent_witness:
  "load_service_unique_id
     (example_config\<lparr>has_option := \<lambda>section setting. True,
                     get := \<lambda>section setting. Inr '' ''\<rparr>) example_files = Inr (Some []) \<and>
   load_service_unique_id example_config example_files = Inr None \<and>
   service_topic (Some []) ''get_event'' = ''/opendxl-misp/service/misp-api/get_event'' \<and>
   service_topic (Some ''site1'') ''get_event''
     = ''/opendxl-misp/service/misp-api/site1/get_event'' \<and>
   event_topic (notification_event (Some ''site1'') ''misp_json_event {}'')
     = ''/opendxl-misp/service/zeromq-notifications/site1/misp_json_event''"
proof -
  let ?cfg = "example_config\<lparr>has_option := \<lambda>section setting. True,
                             get := \<lambda>section setting. Inr '' ''\<rparr>"
  have blank: "load_service_unique_id ?cfg example_files = Inr (Some [])"
    using empty_unique_id_like_absent
            [where cfg = ?cfg and raw = "'' ''" and fs = example_files and name = "[]"
               and client = Map.empty and names = "[]" and message = "[]" and uid = None
               and i = "[]"]
    by (simp add: py_isspace_def)
  have absent: "load_service_unique_id example_config example_files = Inr None"
    using empty_unique_id_like_absent
            [where cfg = example_config and raw = "[]" and fs = example_files and name = "[]"
               and client = Map.empty and names = "[]" and message = "[]" and uid = None
               and i = "[]"]
    by (simp add: example_config_def example_lookup_def example_settings_def
          GENERAL_CONFIG_SECTION_def GENERAL_SERVICE_UNIQUE_ID_PROP_def)
  have t0: "service_topic (Some []) ''get_event'' = ''/opendxl-misp/service/misp-api/get_event''"
    using empty_unique_id_like_absent
            [where cfg = example_config and raw = "[]" and fs = example_files
               and name = "''get_event''" and client = Map.empty and names = "[]"
               and message = "[]" and uid = "Some []" and i = "[]"]
    by (simp add: SERVICE_TYPE_def SERVICE_BASE_NAME_def service_topic_def
          unique_id_segment_def)
  have t1: "service_topic (Some ''site1'') ''get_event''
              = ''/opendxl-misp/service/misp-api/site1/get_event'' \<and>
            event_topic (notification_event (Some ''site1'') ''misp_json_event {}'')
              = ''/opendxl-misp/service/zeromq-notifications/site1/misp_json_event''"
    using empty_unique_id_like_absent
            [where cfg = example_config and raw = "[]" and fs = example_files
               and name = "''get_event''" and client = Map.empty and names = "[]"
               and message = "''misp_json_event {}''" and uid = None and i = "''site1''"]
    by (simp add: SERVICE_TYPE_def SERVICE_BASE_NAME_def ZEROMQ_NOTIFICATIONS_EVENT_TOPIC_def
          partition_space_def)
  from blank absent t0 t1 show ?thesis by simp
qed

section \<open>Properties of the shutdown\<close>

lemma teardown_inv_initial: "teardown_inv (initial has_socket has_thread)"
  by (simp add: teardown_inv_def initial_def in_lock_def count_of_def phase_def settled_def
        none_returned_def)

lemma torn_down_cong:
  "destroyed s' = destroyed s \<Longrightarrow> closes s' = closes s \<Longrightarrow> joins s' = joins s \<Longrightarrow>
   zeromq_socket s' = zeromq_socket s \<Longrightarrow> zeromq_thread s' = zeromq_thread s \<Longrightarrow>
   torn_down s' = torn_down s"
  by (simp add: torn_down_def)

lemma settled_cong:
  "destroyed s' = destroyed s \<Longrightarrow> closes s' = closes s \<Longrightarrow> joins s' = joins s \<Longrightarrow>
   zeromq_socket s' = zeromq_socket s \<Longrightarrow> zeromq_thread s' = zeromq_thread s \<Longrightarrow>
   settled s' = settled s"
  by (simp add: settled_def torn_down_def)

lemma phase_ok_mono:
  assumes "phase_ok p s"
    and "destroyed s' = destroyed s" "closes s' = closes s" "joins s' = joins s"
    and "zeromq_socket s' = zeromq_socket s" "zeromq_thread s' = zeromq_thread s"
    and "none_returned s \<Longrightarrow> none_returned s'"
  shows "phase_ok p s'"
proof -
  from assms(2-6) have td: "torn_down s' = torn_down s" by (rule torn_down_cong)
  from assms(2-6) have st: "settled s' = settled s" by (rule settled_cong)
  from assms(1,7) show ?thesis
    by (cases p) (simp_all add: td st assms(2-6))
qed

lemma listener_step_inv:
  assumes "teardown_inv s" "listener_step s = Some s'"
  shows "teardown_inv s'"
proof (cases "zeromq_thread s = Some Running \<and> destroyed s")
  case False
  with assms have "s' = s"
    by (auto simp: listener_step_def split: option.splits thread_status.splits if_splits)
  with assms show ?thesis by simp
next
  case True
  with assms have s': "s' = s\<lparr>zeromq_thread := Some Exited, exits := Suc (exits s)\<rparr>"
    by (simp add: listener_step_def)
  from True have nt: "\<not> torn_down s" by (simp add: torn_down_def)
  from assms(1) have ph: "phase_ok (phase s) s" by (simp add: teardown_inv_def)
  have ph': "phase s' = phase s" by (simp add: s' phase_def split: option.splits)
  have nr: "none_returned s' = none_returned s" by (simp add: s' none_returned_def)
  from assms(1) nt have "none_returned s" by (auto simp: teardown_inv_def)
  have "phase_ok (phase s) s'"
  proof (cases "phase s")
    case Flagged
    with ph nr show ?thesis by (simp add: s')
  next
    case Closed
    with ph nr show ?thesis by (simp add: s')
  next
    case Joining
    with ph nr show ?thesis by (simp add: s')
  next
    case Joined
    with ph nt show ?thesis by simp
  next
    case Idle
    with ph nt True show ?thesis by (simp add: settled_def)
  next
    case Called
    with ph nt True show ?thesis by (simp add: settled_def)
  next
    case Locked
    with ph nt True show ?thesis by (simp add: settled_def)
  next
    case Returned
    with ph nt True show ?thesis by (simp add: settled_def)
  qed
  then have 5: "phase_ok (phase s') s'" by (simp only: ph')
  from assms(1) have 1: "\<forall>t. in_lock (pcs s' t) \<longleftrightarrow> lock s' = Some t"
    by (simp add: teardown_inv_def s')
  from assms(1) True have 2: "exits s' = count_of (zeromq_thread s' = Some Exited)"
    by (simp add: teardown_inv_def s' count_of_def)
  from True have 3: "zeromq_thread s' = Some Exited \<longrightarrow> destroyed s'"
    by (simp add: s')
  from nr \<open>none_returned s\<close> have 4: "\<not> none_returned s' \<longrightarrow> torn_down s'"
    by simp
  from 1 2 3 4 5 show ?thesis unfolding teardown_inv_def by blast
qed


lemma none_returned_upd:
  assumes "pcs s t \<noteq> Returned" "p \<noteq> Returned" "pcs s' = (pcs s)(t := p)"
  shows "none_returned s' = none_returned s"
  unfolding none_returned_def assms(3)
  using assms(1,2) by (metis fun_upd_apply)

lemma lock_released:
  assumes "\<forall>u. in_lock (pcs s u) \<longleftrightarrow> lock s = Some u" and "lock s = Some t"
  shows "\<forall>u. in_lock (((pcs s)(t := Returned)) u) \<longleftrightarrow> None = Some u"
proof
  fix u
  show "in_lock (((pcs s)(t := Returned)) u) \<longleftrightarrow> None = Some u"
  proof (cases "u = t")
    case True
    then show ?thesis by (simp add: in_lock_def)
  next
    case False
    with assms have "\<not> in_lock (pcs s u)" by auto
    with False show ?thesis by simp
  qed
qed

lemma teardown_invI:
  assumes "\<forall>t. in_lock (pcs s t) \<longleftrightarrow> lock s = Some t"
    and "exits s = count_of (zeromq_thread s = Some Exited)"
    and "zeromq_thread s = Some Exited \<longrightarrow> destroyed s"
    and "\<not> none_returned s \<longrightarrow> torn_down s"
    and "phase_ok (phase s) s"
  shows "teardown_inv s"
  using assms unfolding teardown_inv_def by blast

lemma teardown_invD:
  assumes "teardown_inv s"
  shows "in_lock (pcs s t) \<longleftrightarrow> lock s = Some t"
    and "exits s = count_of (zeromq_thread s = Some Exited)"
    and "zeromq_thread s = Some Exited \<longrightarrow> destroyed s"
    and "\<not> none_returned s \<longrightarrow> torn_down s"
    and "phase_ok (phase s) s"
  using assms unfolding teardown_inv_def by blast+

text \<open>A move of a caller outside the lock that leaves everything but its own point.\<close>

lemma outside_move_inv:
  assumes inv: "teardown_inv s"
    and p: "\<not> in_lock (pcs s t)" and p': "\<not> in_lock p'"
    and ret: "p' \<noteq> Returned"
    and s': "s' = s\<lparr>super_destroys := n, pcs := (pcs s)(t := p')\<rparr>"
  shows "teardown_inv s'"
proof (rule teardown_invI)
  from p have not_owner: "lock s \<noteq> Some t"
    using teardown_invD(1) [OF inv, of t] by simp
  show "\<forall>u. in_lock (pcs s' u) \<longleftrightarrow> lock s' = Some u"
    using teardown_invD(1) [OF inv] p' not_owner by (simp add: s')
  show "exits s' = count_of (zeromq_thread s' = Some Exited)"
    using teardown_invD(2) [OF inv] by (simp add: s')
  show "zeromq_thread s' = Some Exited \<longrightarrow> destroyed s'"
    using teardown_invD(3) [OF inv] by (simp add: s')
  have td: "torn_down s' = torn_down s" by (simp add: s' torn_down_def)
  show "\<not> none_returned s' \<longrightarrow> torn_down s'"
  proof
    assume "\<not> none_returned s'"
    then obtain u where u: "pcs s' u = Returned" by (auto simp: none_returned_def)
    show "torn_down s'"
    proof (cases "u = t")
      case True
      with u have "p' = Returned" by (simp add: s')
      with ret show ?thesis by simp
    next
      case False
      with u have "pcs s u = Returned" by (simp add: s')
      then have "\<not> none_returned s" by (auto simp: none_returned_def)
      with teardown_invD(4) [OF inv] td show ?thesis by simp
    qed
  qed
  have ph: "phase s' = phase s"
    using not_owner by (auto simp: s' phase_def split: option.splits)
  have nr: "none_returned s \<Longrightarrow> none_returned s'"
    using ret unfolding s' none_returned_def by auto
  show "phase_ok (phase s') s'"
    unfolding ph
  proof (rule phase_ok_mono [OF teardown_invD(5) [OF inv]])
    show "none_returned s \<Longrightarrow> none_returned s'" by (rule nr)
  qed (simp_all add: s')
qed


lemma caller_step_inv:
  assumes inv: "teardown_inv s" and st: "caller_step t s = Some s'"
  shows "teardown_inv s'"
proof (cases "pcs s t")
  case Idle
  with st have "s' = s\<lparr>super_destroys := Suc (super_destroys s), pcs := (pcs s)(t := Called)\<rparr>"
    by (simp add: caller_step_def)
  with inv Idle show ?thesis
    by (rule_tac outside_move_inv [where s = s and t = t and p' = Called])
       (simp_all add: in_lock_def)
next
  case Returned
  with st have "s' = s\<lparr>pcs := (pcs s)(t := Idle)\<rparr>"
    by (simp add: caller_step_def)
  with inv Returned show ?thesis
    by (rule_tac outside_move_inv
          [where s = s and t = t and p' = Idle and n = "super_destroys s"])
       (simp_all add: in_lock_def)
next
  case Called
  with st have free: "lock s = None"
    and s': "s' = s\<lparr>lock := Some t, pcs := (pcs s)(t := Locked)\<rparr>"
    by (auto simp: caller_step_def split: option.splits)
  from free have ph: "phase s = Idle" by (simp add: phase_def)
  have ph': "phase s' = Locked" by (simp add: s' phase_def)
  have td: "torn_down s' = torn_down s" by (simp add: s' torn_down_def)
  have se: "settled s' = settled s" by (simp add: s' settled_def torn_down_def)
  have nr: "none_returned s' = none_returned s"
    using Called by (intro none_returned_upd [where t = t and p = Locked]) (simp_all add: s')
  show ?thesis
  proof (rule teardown_invI)
    show "\<forall>u. in_lock (pcs s' u) \<longleftrightarrow> lock s' = Some u"
      using teardown_invD(1) [OF inv] free by (simp add: s' in_lock_def)
    show "exits s' = count_of (zeromq_thread s' = Some Exited)"
      using teardown_invD(2) [OF inv] by (simp add: s')
    show "zeromq_thread s' = Some Exited \<longrightarrow> destroyed s'"
      using teardown_invD(3) [OF inv] by (simp add: s')
    show "\<not> none_returned s' \<longrightarrow> torn_down s'"
      using teardown_invD(4) [OF inv] by (simp add: nr td)
    show "phase_ok (phase s') s'"
      using teardown_invD(5) [OF inv] by (simp add: ph ph' se)
  qed
next
  case Locked
  then have own: "lock s = Some t"
    using teardown_invD(1) [OF inv, of t] by (simp add: in_lock_def)
  with Locked have ph: "phase s = Locked" by (simp add: phase_def)
  with teardown_invD(5) [OF inv] have se: "settled s" by simp
  show ?thesis
  proof (cases "destroyed s")
    case False
    with st Locked have s': "s' = s\<lparr>destroyed := True, pcs := (pcs s)(t := Flagged)\<rparr>"
      by (simp add: caller_step_def)
    from False have "\<not> torn_down s" by (simp add: torn_down_def)
    with teardown_invD(4) [OF inv] have nr: "none_returned s" by blast
    then have nr': "none_returned s'" by (simp add: s' none_returned_def)
    have ph': "phase s' = Flagged" using own by (simp add: s' phase_def)
    show ?thesis
    proof (rule teardown_invI)
      show "\<forall>u. in_lock (pcs s' u) \<longleftrightarrow> lock s' = Some u"
        using teardown_invD(1) [OF inv] own by (simp add: s' in_lock_def)
      show "exits s' = count_of (zeromq_thread s' = Some Exited)"
        using teardown_invD(2) [OF inv] by (simp add: s')
      show "zeromq_thread s' = Some Exited \<longrightarrow> destroyed s'" by (simp add: s')
      show "\<not> none_returned s' \<longrightarrow> torn_down s'" using nr' by simp
      show "phase_ok (phase s') s'"
        using se False nr' by (simp add: ph' settled_def) (simp add: s')
    qed
  next
    case True
    with st Locked have s': "s' = s\<lparr>lock := None, pcs := (pcs s)(t := Returned)\<rparr>"
      by (simp add: caller_step_def)
    from se True have td: "torn_down s" by (simp add: settled_def)
    then have td': "torn_down s'" by (simp add: s' torn_down_def)
    have ph': "phase s' = Idle" by (simp add: s' phase_def)
    show ?thesis
    proof (rule teardown_invI)
      show "\<forall>u. in_lock (pcs s' u) \<longleftrightarrow> lock s' = Some u"
        using lock_released [of s t] teardown_invD(1) [OF inv] own by (simp add: s')
      show "exits s' = count_of (zeromq_thread s' = Some Exited)"
        using teardown_invD(2) [OF inv] by (simp add: s')
      show "zeromq_thread s' = Some Exited \<longrightarrow> destroyed s'"
        using teardown_invD(3) [OF inv] by (simp add: s')
      show "\<not> none_returned s' \<longrightarrow> torn_down s'" using td' by simp
      show "phase_ok (phase s') s'"
        using td' by (simp add: ph' settled_def torn_down_def)
    qed
  qed
next
  case Flagged
  then have own: "lock s = Some t"
    using teardown_invD(1) [OF inv, of t] by (simp add: in_lock_def)
  with Flagged have ph: "phase s = Flagged" by (simp add: phase_def)
  with teardown_invD(5) [OF inv]
  have f: "destroyed s" "closes s = 0" "joins s = 0" "none_returned s" by simp_all
  from st Flagged
  have s': "s' = s\<lparr>closes := (if zeromq_socket s then Suc (closes s) else closes s),
                     pcs := (pcs s)(t := Closed)\<rparr>"
    by (cases "zeromq_socket s") (simp_all add: caller_step_def)
  have nr': "none_returned s'" using f(4) by (simp add: s' none_returned_def)
  have ph': "phase s' = Closed" using own by (simp add: s' phase_def)
  show ?thesis
  proof (rule teardown_invI)
    show "\<forall>u. in_lock (pcs s' u) \<longleftrightarrow> lock s' = Some u"
      using teardown_invD(1) [OF inv] own by (simp add: s' in_lock_def)
    show "exits s' = count_of (zeromq_thread s' = Some Exited)"
      using teardown_invD(2) [OF inv] by (simp add: s')
    show "zeromq_thread s' = Some Exited \<longrightarrow> destroyed s'"
      using teardown_invD(3) [OF inv] by (simp add: s')
    show "\<not> none_returned s' \<longrightarrow> torn_down s'" using nr' by simp
    show "phase_ok (phase s') s'"
      using f nr' by (simp add: ph') (simp add: s' count_of_def)
  qed
next
  case Closed
  then have own: "lock s = Some t"
    using teardown_invD(1) [OF inv, of t] by (simp add: in_lock_def)
  with Closed have ph: "phase s = Closed" by (simp add: phase_def)
  with teardown_invD(5) [OF inv]
  have f: "destroyed s" "closes s = count_of (zeromq_socket s)" "joins s = 0" "none_returned s"
    by simp_all
  show ?thesis
  proof (cases "zeromq_thread s")
    case None
    with st Closed have s': "s' = s\<lparr>pcs := (pcs s)(t := Joined)\<rparr>"
      by (simp add: caller_step_def)
    have nr': "none_returned s'" using f(4) by (simp add: s' none_returned_def)
    have ph': "phase s' = Joined" using own by (simp add: s' phase_def)
    show ?thesis
    proof (rule teardown_invI)
      show "\<forall>u. in_lock (pcs s' u) \<longleftrightarrow> lock s' = Some u"
        using teardown_invD(1) [OF inv] own by (simp add: s' in_lock_def)
      show "exits s' = count_of (zeromq_thread s' = Some Exited)"
        using teardown_invD(2) [OF inv] by (simp add: s')
      show "zeromq_thread s' = Some Exited \<longrightarrow> destroyed s'"
        using teardown_invD(3) [OF inv] by (simp add: s')
      show "\<not> none_returned s' \<longrightarrow> torn_down s'" using nr' by simp
      show "phase_ok (phase s') s'"
        using f None by (simp add: ph') (simp add: s' torn_down_def count_of_def)
    qed
  next
    case (Some status)
    with st Closed have s': "s' = s\<lparr>joins := Suc (joins s), pcs := (pcs s)(t := Joining)\<rparr>"
      by (simp add: caller_step_def)
    have nr': "none_returned s'" using f(4) by (simp add: s' none_returned_def)
    have ph': "phase s' = Joining" using own by (simp add: s' phase_def)
    show ?thesis
    proof (rule teardown_invI)
      show "\<forall>u. in_lock (pcs s' u) \<longleftrightarrow> lock s' = Some u"
        using teardown_invD(1) [OF inv] own by (simp add: s' in_lock_def)
      show "exits s' = count_of (zeromq_thread s' = Some Exited)"
        using teardown_invD(2) [OF inv] by (simp add: s')
      show "zeromq_thread s' = Some Exited \<longrightarrow> destroyed s'"
        using teardown_invD(3) [OF inv] by (simp add: s')
      show "\<not> none_returned s' \<longrightarrow> torn_down s'" using nr' by simp
      show "phase_ok (phase s') s'"
        using f Some nr' by (simp add: ph') (simp add: s')
    qed
  qed
next
  case Joining
  then have own: "lock s = Some t"
    using teardown_invD(1) [OF inv, of t] by (simp add: in_lock_def)
  with Joining have ph: "phase s = Joining" by (simp add: phase_def)
  with teardown_invD(5) [OF inv]
  have f: "destroyed s" "closes s = count_of (zeromq_socket s)" "joins s = 1" "none_returned s"
    by simp_all
  from st Joining have ex: "zeromq_thread s = Some Exited"
    and s': "s' = s\<lparr>pcs := (pcs s)(t := Joined)\<rparr>"
    by (auto simp: caller_step_def split: if_splits)
  have nr': "none_returned s'" using f(4) by (simp add: s' none_returned_def)
  have ph': "phase s' = Joined" using own by (simp add: s' phase_def)
  show ?thesis
  proof (rule teardown_invI)
    show "\<forall>u. in_lock (pcs s' u) \<longleftrightarrow> lock s' = Some u"
      using teardown_invD(1) [OF inv] own by (simp add: s' in_lock_def)
    show "exits s' = count_of (zeromq_thread s' = Some Exited)"
      using teardown_invD(2) [OF inv] by (simp add: s')
    show "zeromq_thread s' = Some Exited \<longrightarrow> destroyed s'"
      using teardown_invD(3) [OF inv] by (simp add: s')
    show "\<not> none_returned s' \<longrightarrow> torn_down s'" using nr' by simp
    show "phase_ok (phase s') s'"
      using f ex by (simp add: ph') (simp add: s' torn_down_def count_of_def)
  qed
next
  case Joined
  then have own: "lock s = Some t"
    using teardown_invD(1) [OF inv, of t] by (simp add: in_lock_def)
  with Joined have ph: "phase s = Joined" by (simp add: phase_def)
  with teardown_invD(5) [OF inv] have td: "torn_down s" by simp
  from st Joined have s': "s' = s\<lparr>lock := None, pcs := (pcs s)(t := Returned)\<rparr>"
    by (simp add: caller_step_def)
  from td have td': "torn_down s'" by (simp add: s' torn_down_def)
  have ph': "phase s' = Idle" by (simp add: s' phase_def)
  show ?thesis
  proof (rule teardown_invI)
    show "\<forall>u. in_lock (pcs s' u) \<longleftrightarrow> lock s' = Some u"
      using lock_released [of s t] teardown_invD(1) [OF inv] own by (simp add: s')
    show "exits s' = count_of (zeromq_thread s' = Some Exited)"
      using teardown_invD(2) [OF inv] by (simp add: s')
    show "zeromq_thread s' = Some Exited \<longrightarrow> destroyed s'"
      using teardown_invD(3) [OF inv] by (simp add: s')
    show "\<not> none_returned s' \<longrightarrow> torn_down s'" using td' by simp
    show "phase_ok (phase s') s'"
      using td' by (simp add: ph' settled_def torn_down_def)
  qed
qed


lemma step_inv: "teardown_inv s \<Longrightarrow> step a s = Some s' \<Longrightarrow> teardown_inv s'"
  by (cases a) (auto intro: caller_step_inv listener_step_inv)

lemma caller_step_fixed:
  assumes "caller_step t s = Some s'"
  shows "zeromq_socket s' = zeromq_socket s \<and> zeromq_thread s' = zeromq_thread s"
  using assms
  by (cases "pcs s t") (auto simp: caller_step_def split: option.splits if_splits)

lemma listener_step_fixed:
  assumes "listener_step s = Some s'"
  shows "zeromq_socket s' = zeromq_socket s \<and>
         (zeromq_thread s' = None \<longleftrightarrow> zeromq_thread s = None)"
  using assms
  by (auto simp: listener_step_def split: option.splits thread_status.splits if_splits)

lemma step_fixed:
  assumes "step a s = Some s'"
  shows "zeromq_socket s' = zeromq_socket s \<and>
         (zeromq_thread s' = None \<longleftrightarrow> zeromq_thread s = None)"
proof (cases a)
  case (Caller t)
  with assms caller_step_fixed [of t s s'] show ?thesis by simp
next
  case Listener
  with assms listener_step_fixed [of s s'] show ?thesis by simp
qed

lemma run_inv:
  "teardown_inv s \<Longrightarrow> run schedule s = Some s' \<Longrightarrow>
   teardown_inv s' \<and> zeromq_socket s' = zeromq_socket s \<and>
   (zeromq_thread s' = None \<longleftrightarrow> zeromq_thread s = None)"
proof (induction schedule arbitrary: s)
  case Nil
  then show ?case by simp
next
  case (Cons a schedule)
  from Cons.prems(2) obtain s1 where s1: "step a s = Some s1" and r: "run schedule s1 = Some s'"
    by (auto split: option.splits)
  from Cons.prems(1) s1 have "teardown_inv s1" by (rule step_inv)
  from Cons.IH [OF this r] step_fixed [OF s1] show ?case by simp
qed

lemma inv_at_most_once:
  assumes "teardown_inv s"
  shows "closes s \<le> 1 \<and> joins s \<le> 1 \<and> exits s \<le> 1"
proof -
  have e: "exits s \<le> 1"
    using teardown_invD(2) [OF assms] by (simp add: count_of_def)
  have "closes s \<le> 1 \<and> joins s \<le> 1"
    using teardown_invD(5) [OF assms]
    by (cases "phase s"; cases "destroyed s")
       (simp_all add: settled_def torn_down_def count_of_def)
  with e show ?thesis by simp
qed

text \<open>
  Claim C6. In every run of any number of callers of \<open>destroy\<close>, interleaved in
  any order with each other and with the listener, whether a caller calls once or
  again after it has returned: the socket is closed at most once, \<open>join\<close> is called
  at most once, and the listener leaves its loop at most once. Whenever some call
  has returned, the flag is set, the socket (if there is one) has been closed exactly
  once, and the listener thread (if there is one) has been joined exactly once and
  has exited exactly once: no call returns before the listener has ended. A further
  call made after a call has returned does nothing except the base class's
  \<open>destroy\<close>. No step of \<open>destroy\<close> can fail: a caller can only wait, for the
  lock or in \<open>join\<close>.
\<close>

theorem destroy_at_most_once_under_interleaving:
  assumes "run schedule (initial has_socket has_thread) = Some s"
  shows "closes s \<le> 1 \<and> joins s \<le> 1 \<and> exits s \<le> 1 \<and>
         (\<forall>t. pcs s t = Returned \<longrightarrow>
            destroyed s \<and> closes s = count_of has_socket \<and> joins s = count_of has_thread \<and>
            exits s = count_of has_thread \<and>
            (has_thread \<longrightarrow> zeromq_thread s = Some Exited)) \<and>
         (\<forall>t. lock s = None \<and> pcs s t = Returned \<longrightarrow>
            run [Caller t, Caller t, Caller t, Caller t] s =
              Some (s\<lparr>super_destroys := Suc (super_destroys s)\<rparr>))"
proof -
  from run_inv [OF teardown_inv_initial assms]
  have inv: "teardown_inv s" and sock: "zeromq_socket s = has_socket"
    and thr: "zeromq_thread s = None \<longleftrightarrow> \<not> has_thread"
    by (simp_all add: initial_def)
  have ret: "destroyed s \<and> closes s = count_of has_socket \<and> joins s = count_of has_thread \<and>
            exits s = count_of has_thread \<and> (has_thread \<longrightarrow> zeromq_thread s = Some Exited)"
    if "pcs s t = Returned" for t
  proof -
    from that have "\<not> none_returned s" by (auto simp: none_returned_def)
    with teardown_invD(4) [OF inv] have td: "torn_down s" by simp
    from td thr have ex: "has_thread \<longrightarrow> zeromq_thread s = Some Exited"
      by (cases "zeromq_thread s") (auto simp: torn_down_def intro: thread_status.exhaust)
    from td sock thr ex teardown_invD(2) [OF inv] show ?thesis
      by (auto simp: torn_down_def count_of_def)
  qed
  have again: "run [Caller t, Caller t, Caller t, Caller t] s =
              Some (s\<lparr>super_destroys := Suc (super_destroys s)\<rparr>)"
    if "lock s = None" "pcs s t = Returned" for t
  proof -
    from ret [OF that(2)] have "destroyed s" by simp
    with that
    have "run [Caller t, Caller t, Caller t, Caller t] s =
            Some (s\<lparr>super_destroys := Suc (super_destroys s), lock := None,
                    pcs := (pcs s)(t := Returned)\<rparr>)"
      by (simp add: caller_step_def)
    moreover
    have "s\<lparr>super_destroys := Suc (super_destroys s), lock := None,
            pcs := (pcs s)(t := Returned)\<rparr> = s\<lparr>super_destroys := Suc (super_destroys s)\<rparr>"
      by (rule teardown.equality) (simp_all add: that fun_upd_idem)
    ultimately show ?thesis by simp
  qed
  from inv_at_most_once [OF inv] ret again show ?thesis by blast
qed

theorem destroy_at_most_once_under_interleaving_witness:
  "case run [Caller 0, Caller 1, Caller 0, Listener, Caller 0, Caller 0, Caller 0,
             Listener, Caller 0, Caller 0, Caller 1, Caller 1, Caller 0, Caller 0,
             Caller 0, Caller 0]
          (initial True True) of
     None \<Rightarrow> False
   | Some s \<Rightarrow> pcs s 0 = Returned \<and> pcs s 1 = Returned \<and> super_destroys s = 3 \<and>
              closes s = 1 \<and> joins s = 1 \<and> exits s = 1 \<and> zeromq_thread s = Some Exited"
proof -
  let ?schedule = "[Caller 0, Caller 1, Caller 0, Listener, Caller 0, Caller 0, Caller 0,
             Listener, Caller 0, Caller 0, Caller 1, Caller 1, Caller 0, Caller 0,
             Caller 0, Caller 0]"
  have "case run ?schedule (initial True True) of
          None \<Rightarrow> False
        | Some s \<Rightarrow> pcs s 0 = Returned \<and> pcs s 1 = Returned \<and> super_destroys s = 3"
    by (simp add: initial_def caller_step_def listener_step_def)
  then obtain s where s: "run ?schedule (initial True True) = Some s"
    and p: "pcs s 0 = Returned" "pcs s 1 = Returned" "super_destroys s = 3"
    by (auto split: option.splits)
  from destroy_at_most_once_under_interleaving [OF s]
  have "pcs s 0 = Returned \<longrightarrow>
          destroyed s \<and> closes s = count_of True \<and> joins s = count_of True \<and>
          exits s = count_of True \<and> (True \<longrightarrow> zeromq_thread s = Some Exited)"
    by blast
  with p(1)
  have "closes s = 1 \<and> joins s = 1 \<and> exits s = 1 \<and> zeromq_thread s = Some Exited"
    by (simp add: count_of_def)
  with s p show ?thesis by simp
qed

end
